theory Spec2Isabelle
  imports Main "HOL-Library.Sublist" "HOL-Library.Char_ord" "HOL-Library.List_Lexorder"
begin

section \<open>Strings as the script uses them\<close>

text \<open>
  The script \<^verbatim>\<open>migrate-safe.ts\<close> works on JavaScript strings. A string is modelled as a
  list of characters; the three string operations the script calls are
  \<^verbatim>\<open>split('\n')\<close>, \<^verbatim>\<open>join('\n')\<close> and \<^verbatim>\<open>includes\<close>.
\<close>

definition newline :: char where
  "newline = CHR 0x0A"

text \<open>
  \<^verbatim>\<open>content.split('\n')\<close>: the pieces between the newline characters. The result is never
  empty: the empty string splits into one empty line.
\<close>

fun split_nl :: "string \<Rightarrow> string list" where
  "split_nl [] = [[]]"
| "split_nl (c # cs) =
     (if c = newline then [] # split_nl cs
      else (case split_nl cs of
              [] \<Rightarrow> [[c]]
            | l # ls \<Rightarrow> (c # l) # ls))"

text \<open>\<^verbatim>\<open>lines.join('\n')\<close>: the empty array joins to the empty string.\<close>

fun join_nl :: "string list \<Rightarrow> string" where
  "join_nl [] = []"
| "join_nl [l] = l"
| "join_nl (l # m # ls) = l @ newline # join_nl (m # ls)"

fun starts_with :: "string \<Rightarrow> string \<Rightarrow> bool" where
  "starts_with s [] = True"
| "starts_with [] (p # ps) = False"
| "starts_with (c # cs) (p # ps) = (c = p \<and> starts_with cs ps)"

text \<open>
  \<^verbatim>\<open>line.includes(search)\<close>: \<open>search\<close> occurs in \<open>line\<close> as a contiguous substring. The
  empty search string occurs in every line.
\<close>

fun str_includes :: "string \<Rightarrow> string \<Rightarrow> bool" where
  "str_includes [] search = (search = [])"
| "str_includes (c # cs) search = (starts_with (c # cs) search \<or> str_includes cs search)"

text \<open>The decimal numeral of a number, as a template literal prints it.\<close>

fun show_nat :: "nat \<Rightarrow> string" where
  "show_nat n =
     (if n < 10 then [char_of (48 + n)]
      else show_nat (n div 10) @ [char_of (48 + n mod 10)])"

declare show_nat.simps [simp del]

section \<open>Configuration\<close>

definition linesToRemove :: "string list" where
  \<open>linesToRemove =
     [''ALTER TABLE `PostCoordinates` DROP FOREIGN KEY `PostCoordinates_postId_fkey`;'',
      ''DROP INDEX `idx_postcoordinates_geo` ON `PostCoordinates`;'']\<close>

section \<open>The sanitize loop (step 3 of \<^verbatim>\<open>main\<close>)\<close>

text \<open>
  One round of \<^verbatim>\<open>linesToRemove.forEach\<close>. The state of the loop is the pair of the two
  variables it assigns, \<^verbatim>\<open>migrationContent\<close> and \<^verbatim>\<open>linesRemovedCount\<close>.
\<close>

definition sanitize_pass :: "string \<Rightarrow> string \<times> nat \<Rightarrow> string \<times> nat" where
  "sanitize_pass lineToRemove st =
     (let migrationContent = fst st;
          linesRemovedCount = snd st;
          lines = split_nl migrationContent;
          originalLength = length lines;
          filteredLines = filter (\<lambda>line. \<not> str_includes line lineToRemove) lines
      in if originalLength > length filteredLines
         then (join_nl filteredLines,
               linesRemovedCount + (originalLength - length filteredLines))
         else (migrationContent, linesRemovedCount))"

text \<open>
  The whole loop, from the content read from the file and the count 0, over the blacklist
  in its configured order. It returns the final content and the final count.
\<close>

definition sanitize :: "string list \<Rightarrow> string \<Rightarrow> string \<times> nat" where
  "sanitize blacklist content = fold sanitize_pass blacklist (content, 0)"

text \<open>A line is unsafe when it contains at least one blacklist substring.\<close>

definition unsafe :: "string list \<Rightarrow> string \<Rightarrow> bool" where
  "unsafe blacklist line = list_ex (\<lambda>s. str_includes line s) blacklist"

text \<open>
  The single pass the specification describes, for comparison with the loop of the source:
  split once, drop every line that contains any blacklist substring, join, and count the
  original lines minus the retained ones.
\<close>

definition sanitize_single :: "string list \<Rightarrow> string \<Rightarrow> string \<times> nat" where
  "sanitize_single blacklist content =
     (let lines = split_nl content;
          retained = filter (\<lambda>line. \<not> unsafe blacklist line) lines
      in (join_nl retained, length lines - length retained))"

section \<open>The world outside the script\<close>

text \<open>
  A path is the list of its components: \<^verbatim>\<open>path.join\<close> appends components. (No component
  the script joins is \<^verbatim>\<open>.\<close> or \<^verbatim>\<open>..\<close> unless the working directory or a directory entry
  is, so the normalisation \<^verbatim>\<open>path.join\<close> also performs is not modelled.)
\<close>

type_synonym path = "string list"

definition path_join :: "path \<Rightarrow> string list \<Rightarrow> path" where
  "path_join base components = base @ components"

definition show_path :: "path \<Rightarrow> string" where
  "show_path p = concat (map (\<lambda>component. CHR ''/'' # component) p)"

text \<open>
  The file system as the three \<^verbatim>\<open>fs\<close> calls of the script see it: \<open>dirs\<close> is what
  \<^verbatim>\<open>readdirSync\<close> returns for a path, \<open>files\<close> what \<^verbatim>\<open>readFileSync\<close> returns (\<open>None\<close>:
  the call throws), and \<open>writable\<close> says whether \<^verbatim>\<open>writeFileSync\<close> to a path succeeds.
\<close>

record world =
  dirs :: "path \<rightharpoonup> string list"
  files :: "path \<rightharpoonup> string"
  writable :: "path \<Rightarrow> bool"

text \<open>
  What \<^verbatim>\<open>execSync\<close> observes of the child process: its exit status, or that it could not
  be spawned. \<^verbatim>\<open>execSync\<close> throws unless the status is zero.
\<close>

datatype exec_result = ExitStatus nat | SpawnFailure

fun succeeded :: "exec_result \<Rightarrow> bool" where
  "succeeded (ExitStatus n) = (n = 0)"
| "succeeded SpawnFailure = False"

text \<open>
  The inputs of one run: \<^verbatim>\<open>process.argv[2]\<close> (\<open>None\<close> for \<^verbatim>\<open>undefined\<close>),
  \<^verbatim>\<open>process.cwd()\<close>, and the behaviour of external commands. An external command is any
  function of the world: it returns what \<^verbatim>\<open>execSync\<close> observes and the world it leaves.
\<close>

record env =
  argv2 :: "string option"
  cwd :: path
  execSync :: "string \<Rightarrow> world \<Rightarrow> exec_result \<times> world"

text \<open>The exception of an \<^verbatim>\<open>fs\<close> call: the call that threw and the path it was given.\<close>

datatype fs_error = ReaddirFailed path | ReadFailed path | WriteFailed path

text \<open>
  Everything the operator and the surroundings see of a run, in order: console output,
  external commands, and file system calls (recorded when attempted, whether or not they
  succeed). The last constructor is not an action of the script: it is the runtime's
  print of an exception that nothing caught, and only \<open>run\<close> below adds it.
\<close>

datatype event =
    Info string
  | Log string
  | ErrorMsg string
  | Exec string
  | Readdir path
  | ReadFile path
  | WriteFile path string
  | RuntimeError fs_error

text \<open>
  How a run stops early: \<^verbatim>\<open>process.exit(n)\<close>, or an exception of an \<^verbatim>\<open>fs\<close> call that
  nothing in the script catches (\<^verbatim>\<open>main()\<close> is called with no handler). A step that
  returns normally yields \<open>Inr\<close> of its value.
\<close>

datatype outcome = Exit nat | Uncaught fs_error

type_synonym state = "world \<times> event list"

definition emit :: "event \<Rightarrow> state \<Rightarrow> state" where
  "emit ev s = (fst s, snd s @ [ev])"

fun andThen ::
  "(outcome + 'a) \<times> state \<Rightarrow> ('a \<Rightarrow> state \<Rightarrow> (outcome + 'b) \<times> state) \<Rightarrow> (outcome + 'b) \<times> state"
where
  "andThen (Inl stop, s) f = (Inl stop, s)"
| "andThen (Inr v, s) f = f v s"

fun is_exec :: "event \<Rightarrow> bool" where
  "is_exec (Exec c) = True"
| "is_exec ev = False"

fun is_fs :: "event \<Rightarrow> bool" where
  "is_fs (Readdir p) = True"
| "is_fs (ReadFile p) = True"
| "is_fs (WriteFile p c) = True"
| "is_fs ev = False"

fun is_write :: "event \<Rightarrow> bool" where
  "is_write (WriteFile p c) = True"
| "is_write ev = False"


text \<open>The external effects of a run: the commands it ran and the file system calls it made.\<close>

definition effects :: "event list \<Rightarrow> event list" where
  "effects tr = filter (\<lambda>ev. is_exec ev \<or> is_fs ev) tr"

section \<open>The script\<close>

subsection \<open>\<^verbatim>\<open>runCommand\<close>\<close>

definition commandFailed :: "string \<Rightarrow> string" where
  \<open>commandFailed command = ''Command "'' @ command @ ''" failed.''\<close>

text \<open>
  \<^verbatim>\<open>runCommand\<close> prints the command, runs it once with \<^verbatim>\<open>execSync\<close>, and returns when the
  call does not throw. The \<^verbatim>\<open>catch\<close> branch prints which command failed and calls
  \<^verbatim>\<open>process.exit(1)\<close>.
\<close>

definition runCommand :: "env \<Rightarrow> string \<Rightarrow> state \<Rightarrow> (outcome + unit) \<times> state" where
  "runCommand e command s =
     (let s1 = emit (Exec command) (emit (Info (''> '' @ command)) s);
          ran = execSync e command (fst s1);
          s2 = (snd ran, snd s1)
      in if succeeded (fst ran) then (Inr (), s2)
         else (Inl (Exit 1), emit (ErrorMsg (commandFailed command)) s2))"

subsection \<open>The steps of \<^verbatim>\<open>main\<close>\<close>

definition usageMessage :: string where
  \<open>usageMessage =
     ''Error: Provide migration name. Usage: npm run migrate:safe -- "my-migration-name"''\<close>

definition generateCommand :: "string \<Rightarrow> string" where
  \<open>generateCommand migrationName =
     ''npx prisma migrate dev --name "'' @ migrationName @ ''" --create-only''\<close>

definition deployCommand :: string where
  "deployCommand = ''npx prisma migrate deploy''"

definition notFoundMessage :: string where
  "notFoundMessage = ''Migration folder not found.''"

definition step1Message :: string where
  "step1Message = newline # ''[Step 1/4] Generating migration file...''"

definition step2Message :: string where
  "step2Message = newline # ''[Step 2/4] Searching for migration file...''"

definition step3Message :: string where
  "step3Message = newline # ''[Step 3/4] Cleaning up migration file...''"

definition step4Message :: string where
  "step4Message = newline # ''[Step 4/4] Applying migrations...''"

definition removedMessage :: "nat \<Rightarrow> string" where
  "removedMessage linesRemovedCount =
     ''Successfully removed '' @ show_nat linesRemovedCount @
     '' unwanted lines from the migration file.''"

definition cleanMessage :: string where
  "cleanMessage = ''No lines to remove found. The file is clean.''"

text \<open>
  The last line of output. The characters between the newline and the text are written as
  the bytes the source file holds there (C3 B0 C5 B8 C5 BD E2 80 B0).
\<close>

definition completedMessage :: string where
  "completedMessage =
     newline # CHR 0xC3 # CHR 0xB0 # CHR 0xC5 # CHR 0xB8 # CHR 0xC5 # CHR 0xBD #
     CHR 0xE2 # CHR 0x80 # CHR 0xB0 #
     '' Safe migration completed successfully!''"

text \<open>Step 1: generate the migration file without applying it.\<close>

definition generate :: "env \<Rightarrow> string \<Rightarrow> state \<Rightarrow> (outcome + unit) \<times> state" where
  "generate e migrationName s =
     runCommand e (generateCommand migrationName) (emit (Info step1Message) s)"

text \<open>
  \<^verbatim>\<open>xs[i]\<close> on a JavaScript array is \<^verbatim>\<open>undefined\<close> (here \<open>None\<close>) past the end, and the test
  \<^verbatim>\<open>!v\<close> holds of \<^verbatim>\<open>undefined\<close> and of the empty string.
\<close>

definition nth_opt :: "'a list \<Rightarrow> nat \<Rightarrow> 'a option" where
  "nth_opt xs i = (if i < length xs then Some (xs ! i) else None)"

fun falsy :: "string option \<Rightarrow> bool" where
  "falsy None = True"
| "falsy (Some v) = (v = [])"

definition migrationsDirOf :: "env \<Rightarrow> path" where
  "migrationsDirOf e = path_join (cwd e) [''prisma'', ''schema'', ''migrations'']"

text \<open>
  \<^verbatim>\<open>readdirSync(migrationsDir).sort().reverse()\<close>: the default \<^verbatim>\<open>sort\<close> orders strings
  by their UTF-16 code units. The model orders names lexicographically by their 8-bit
  characters. The two orders agree on ASCII names, such as the timestamped directories
  and the lock file; they can differ only between names that mix characters from
  U+E000 to U+FFFF with characters beyond U+FFFF.
\<close>

definition allMigrationsOf :: "string list \<Rightarrow> string list" where
  "allMigrationsOf entries = rev (sort entries)"

definition latestMigrationDirName :: "string list \<Rightarrow> string option" where
  "latestMigrationDirName entries = nth_opt (allMigrationsOf entries) 1"

text \<open>Step 2: find the latest migration file. It returns \<^verbatim>\<open>migrationFilePath\<close>.\<close>

definition locate :: "env \<Rightarrow> state \<Rightarrow> (outcome + path) \<times> state" where
  "locate e s =
     (let migrationsDir = migrationsDirOf e;
          s1 = emit (Readdir migrationsDir) (emit (Info step2Message) s)
      in case dirs (fst s1) migrationsDir of
           None \<Rightarrow> (Inl (Uncaught (ReaddirFailed migrationsDir)), s1)
         | Some entries \<Rightarrow>
             (if falsy (latestMigrationDirName entries)
              then (Inl (Exit 1), emit (ErrorMsg notFoundMessage) s1)
              else
                (let migrationFilePath =
                       path_join migrationsDir
                         [case_option [] id (latestMigrationDirName entries), ''migration.sql'']
                 in (Inr migrationFilePath,
                     emit (Log (''Found: '' @ show_path migrationFilePath)) s1))))"

text \<open>
  Step 3: read, clean, and save the migration file. It returns \<^verbatim>\<open>linesRemovedCount\<close>.
  \<^verbatim>\<open>writeFileSync\<close> is called only under \<^verbatim>\<open>linesRemovedCount > 0\<close>.
\<close>

definition cleanup :: "string list \<Rightarrow> path \<Rightarrow> state \<Rightarrow> (outcome + nat) \<times> state" where
  "cleanup blacklist migrationFilePath s =
     (let s1 = emit (ReadFile migrationFilePath) (emit (Info step3Message) s)
      in case files (fst s1) migrationFilePath of
           None \<Rightarrow> (Inl (Uncaught (ReadFailed migrationFilePath)), s1)
         | Some content \<Rightarrow>
             (let migrationContent = fst (sanitize blacklist content);
                  linesRemovedCount = snd (sanitize blacklist content)
              in if linesRemovedCount > 0
                 then
                   (let s2 = emit (WriteFile migrationFilePath migrationContent) s1
                    in if writable (fst s2) migrationFilePath
                       then (Inr linesRemovedCount,
                             emit (Info (removedMessage linesRemovedCount))
                               ((fst s2)\<lparr>files := (files (fst s2))
                                   (migrationFilePath \<mapsto> migrationContent)\<rparr>, snd s2))
                       else (Inl (Uncaught (WriteFailed migrationFilePath)), s2))
                 else (Inr linesRemovedCount, emit (Info cleanMessage) s1)))"

text \<open>Step 4: apply all pending migrations.\<close>

definition applyMigrations :: "env \<Rightarrow> state \<Rightarrow> (outcome + unit) \<times> state" where
  "applyMigrations e s = runCommand e deployCommand (emit (Info step4Message) s)"

subsection \<open>\<^verbatim>\<open>main\<close>\<close>

text \<open>
  A run of the script from a world: the way it stops (\<open>Inr ()\<close> when \<^verbatim>\<open>main\<close> returns),
  the world it leaves, and the events in order.
\<close>

definition main :: "env \<Rightarrow> world \<Rightarrow> (outcome + unit) \<times> state" where
  "main e w =
     (if falsy (argv2 e) then (Inl (Exit 1), emit (ErrorMsg usageMessage) (w, []))
      else
        andThen (generate e (case_option [] id (argv2 e)) (w, [])) (\<lambda>_ s1.
        andThen (locate e s1) (\<lambda>migrationFilePath s2.
        andThen (cleanup linesToRemove migrationFilePath s2) (\<lambda>_ s3.
        andThen (applyMigrations e s3) (\<lambda>_ s4.
          (Inr (), emit (Info completedMessage) s4))))))"

section \<open>How a run may stop\<close>




section \<open>The process\<close>

text \<open>
  The last line of the file is the call \<^verbatim>\<open>main();\<close>, with no handler. \<^verbatim>\<open>main\<close> is an
  \<^verbatim>\<open>async\<close> function, so an exception that leaves it rejects its promise, and nothing
  handles the rejection. What the process does then is the runtime's default for an
  unhandled rejection (the mode \<^verbatim>\<open>throw\<close>, the default since Node 15): it prints the
  exception, whose message names the failed call and its path, and exits with code 1.
  A run that ends with \<^verbatim>\<open>process.exit(n)\<close> exits with code \<open>n\<close>, and a run in which
  \<^verbatim>\<open>main\<close> returns exits with code 0. The result is the exit code, the world left, and
  everything printed and done, in order.
\<close>

definition run :: "env \<Rightarrow> world \<Rightarrow> nat \<times> state" where
  "run e w =
     (case main e w of
        (Inr u, s) \<Rightarrow> (0, s)
      | (Inl (Exit code), s) \<Rightarrow> (code, s)
      | (Inl (Uncaught err), s) \<Rightarrow> (1, emit (RuntimeError err) s))"




section \<open>Concrete scripts, worlds and runs\<close>

text \<open>The four-line script of the specification's sanitization example.\<close>

definition example_lines :: "string list" where
  \<open>example_lines =
     [''CREATE TABLE X (...);'',
      ''ALTER TABLE `PostCoordinates` DROP FOREIGN KEY `PostCoordinates_postId_fkey`;'',
      ''DROP INDEX `idx_postcoordinates_geo` ON `PostCoordinates`;'',
      ''CREATE INDEX y ON z;'']\<close>

definition example_script :: string where
  "example_script = join_nl example_lines"

text \<open>The migrations root of the specification's locator example, under the directory \<open>/app\<close>.\<close>

definition example_entries :: "string list" where
  "example_entries = [''20240101_a'', ''20240102_b'', ''migration_lock.toml'']"

definition example_root :: path where
  "example_root = [''app'', ''prisma'', ''schema'', ''migrations'']"

definition example_file :: path where
  "example_file = example_root @ [''20240102_b'', ''migration.sql'']"

definition example_world :: world where
  "example_world =
     \<lparr>dirs = [example_root \<mapsto> example_entries],
      files = [example_file \<mapsto> example_script],
      writable = (\<lambda>p. True)\<rparr>"

text \<open>A world whose latest migration script holds nothing from the blacklist.\<close>

definition clean_world :: world where
  "clean_world = example_world\<lparr>files := [example_file \<mapsto> ''CREATE INDEX y ON z;'']\<rparr>"

text \<open>Worlds where discovery fails: no migrations root, and an empty one.\<close>

definition rootless_world :: world where
  "rootless_world = example_world\<lparr>dirs := Map.empty\<rparr>"

definition empty_root_world :: world where
  "empty_root_world = example_world\<lparr>dirs := [example_root \<mapsto> []]\<rparr>"

text \<open>A world whose latest migration directory has no readable script.\<close>

definition unreadable_world :: world where
  "unreadable_world = example_world\<lparr>files := Map.empty\<rparr>"

text \<open>
  Runs with the name \<open>add_users\<close> from \<open>/app\<close>: one where every external command exits with
  status 0 and changes nothing, one where every command exits with status 1, and one where
  the name is missing.
\<close>

definition ok_env :: env where
  "ok_env =
     \<lparr>argv2 = Some ''add_users'', cwd = [''app''],
      execSync = (\<lambda>command w. (ExitStatus 0, w))\<rparr>"

definition failing_env :: env where
  "failing_env = ok_env\<lparr>execSync := (\<lambda>command w. (ExitStatus 1, w))\<rparr>"

definition nameless_env :: env where
  "nameless_env = ok_env\<lparr>argv2 := None\<rparr>"

text \<open>
  A root that holds the marker entry only, a world where the script cannot be written,
  and a run whose apply command exits with status 1.
\<close>

definition lock_only_world :: world where
  "lock_only_world = example_world\<lparr>dirs := [example_root \<mapsto> [''migration_lock.toml'']]\<rparr>"



section \<open>Facts about the string operations\<close>

lemma split_nl_nonempty: "split_nl s \<noteq> []"
  by (induction s) (auto split: list.splits)

lemma split_nl_no_newline: "l \<in> set (split_nl s) \<Longrightarrow> newline \<notin> set l"
proof (induction s arbitrary: l)
  case Nil
  then show ?case by simp
next
  case (Cons c cs)
  obtain h t where ht: "split_nl cs = h # t"
    using split_nl_nonempty [of cs] by (cases "split_nl cs") auto
  show ?case
  proof (cases "c = newline")
    case True
    with Cons show ?thesis by auto
  next
    case False
    with Cons.prems ht have "l = c # h \<or> l \<in> set t" by auto
    then show ?thesis
    proof
      assume "l = c # h"
      moreover have "newline \<notin> set h" using Cons.IH [of h] ht by simp
      ultimately show ?thesis using False by auto
    next
      assume "l \<in> set t"
      then show ?thesis using Cons.IH [of l] ht by simp
    qed
  qed
qed

text \<open>Joining the lines of a string gives the string back.\<close>

lemma join_split_nl: "join_nl (split_nl s) = s"
proof (induction s)
  case Nil
  show ?case by simp
next
  case (Cons c cs)
  obtain h t where ht: "split_nl cs = h # t"
    using split_nl_nonempty [of cs] by (cases "split_nl cs") auto
  show ?case
  proof (cases "c = newline")
    case True
    with Cons ht show ?thesis by simp
  next
    case False
    with Cons ht show ?thesis by (cases t) auto
  qed
qed

lemma split_nl_line: "newline \<notin> set l \<Longrightarrow> split_nl l = [l]"
  by (induction l) (auto split: list.splits)

lemma split_nl_append:
  "newline \<notin> set l \<Longrightarrow> split_nl (l @ newline # s) = l # split_nl s"
  by (induction l) (auto split: list.splits)

text \<open>
  Splitting a joined list of lines gives the lines back, unless the list is empty: the
  empty list joins to the empty string, which splits into one empty line.
\<close>

lemma split_join_nl:
  "ls \<noteq> [] \<Longrightarrow> \<forall>l \<in> set ls. newline \<notin> set l \<Longrightarrow> split_nl (join_nl ls) = ls"
proof (induction ls rule: join_nl.induct)
  case 1
  then show ?case by simp
next
  case (2 l)
  then show ?case by (simp add: split_nl_line)
next
  case (3 l m ls)
  then show ?case by (simp add: split_nl_append)
qed

lemma split_join_empty: "split_nl (join_nl []) = [[]]"
  by simp

text \<open>\<open>str_includes\<close> is the contiguous-sublist relation of the library.\<close>

lemma starts_with_prefix: "starts_with s p = prefix p s"
  by (induction s p rule: starts_with.induct) auto

lemma includes_sublist: "str_includes line search = sublist search line"
  by (induction line) (auto simp: starts_with_prefix sublist_Cons_right)

lemma includes_empty: "str_includes line []"
  by (cases line) auto

section \<open>Facts about the sanitize loop\<close>

lemma unsafe_Nil: "unsafe [] line = False"
  by (simp add: unsafe_def)

lemma unsafe_Cons: "unsafe (b # bs) line = (str_includes line b \<or> unsafe bs line)"
  by (simp add: unsafe_def)

lemma unsafe_iff: "unsafe bs line = (\<exists>b \<in> set bs. str_includes line b)"
  by (simp add: unsafe_def list_ex_iff)

text \<open>The empty line contains no substring but the empty one.\<close>

lemma unsafe_empty_line: "\<forall>b \<in> set bs. b \<noteq> [] \<Longrightarrow> \<not> unsafe bs []"
  by (induction bs) (auto simp: unsafe_Nil unsafe_Cons)

lemma filter_all_kept:
  assumes "\<not> length (filter P xs) < length xs"
  shows "filter P xs = xs"
proof -
  have "\<forall>x \<in> set xs. P x"
  proof
    fix x assume "x \<in> set xs"
    then show "P x" using assms length_filter_less [of x xs P] by blast
  qed
  then show ?thesis by simp
qed

text \<open>
  One round of the loop, without its test: when no line is dropped, the content it keeps
  is the join of all its lines, and the count grows by zero.
\<close>

lemma sanitize_pass_eq:
  "sanitize_pass b (c, n) =
     (join_nl (filter (\<lambda>line. \<not> str_includes line b) (split_nl c)),
      n + (length (split_nl c) -
           length (filter (\<lambda>line. \<not> str_includes line b) (split_nl c))))"
proof (cases "length (filter (\<lambda>line. \<not> str_includes line b) (split_nl c))
              < length (split_nl c)")
  case True
  then show ?thesis by (simp add: sanitize_pass_def Let_def)
next
  case False
  then have "filter (\<lambda>line. \<not> str_includes line b) (split_nl c) = split_nl c"
    by (rule filter_all_kept)
  then show ?thesis by (simp add: sanitize_pass_def Let_def join_split_nl)
qed

lemma split_join_filter:
  "filter P (split_nl c) \<noteq> [] \<Longrightarrow>
     split_nl (join_nl (filter P (split_nl c))) = filter P (split_nl c)"
  by (rule split_join_nl) (auto dest: split_nl_no_newline)

text \<open>
  The content after the loop, from any content and count: the join of the lines that
  contain no blacklist substring. This holds for every blacklist.
\<close>

lemma fold_sanitize_content:
  "fst (fold sanitize_pass bs (c, n)) =
     join_nl (filter (\<lambda>line. \<not> unsafe bs line) (split_nl c))"
proof (induction bs arbitrary: c n)
  case Nil
  show ?case by (simp add: unsafe_Nil join_split_nl)
next
  case (Cons b bs)
  let ?xs = "filter (\<lambda>line. \<not> str_includes line b) (split_nl c)"
  have step: "fst (fold sanitize_pass (b # bs) (c, n)) =
      join_nl (filter (\<lambda>line. \<not> unsafe bs line) (split_nl (join_nl ?xs)))"
    by (simp add: sanitize_pass_eq Cons.IH)
  have both: "filter (\<lambda>line. \<not> unsafe (b # bs) line) (split_nl c) =
      filter (\<lambda>line. \<not> unsafe bs line) ?xs"
    by (simp add: unsafe_Cons conj_commute)
  show ?case
  proof (cases "?xs = []")
    case True
    then show ?thesis using step both by simp
  next
    case False
    then have "split_nl (join_nl ?xs) = ?xs" by (rule split_join_filter)
    then show ?thesis using step both by simp
  qed
qed

lemma count_split:
  "length (filter (\<lambda>l. A l \<or> U l) ls) =
     (length ls - length (filter (\<lambda>l. \<not> A l) ls)) +
     length (filter U (filter (\<lambda>l. \<not> A l) ls))"
proof (induction ls)
  case Nil
  show ?case by simp
next
  case (Cons l ls)
  have le: "length (filter (\<lambda>l. \<not> A l) ls) \<le> length ls" by simp
  show ?case using Cons le by (auto simp: Suc_diff_le)
qed

text \<open>
  The count after the loop, when no blacklist entry is the empty string: the number of
  lines that contain a blacklist substring. (After a round has dropped every line, the
  next round splits the empty content into one empty line, which only the empty substring
  matches.)
\<close>

lemma fold_sanitize_count:
  "\<forall>b \<in> set bs. b \<noteq> [] \<Longrightarrow>
     snd (fold sanitize_pass bs (c, n)) = n + length (filter (unsafe bs) (split_nl c))"
proof (induction bs arbitrary: c n)
  case Nil
  show ?case by (simp add: unsafe_Nil)
next
  case (Cons b bs)
  let ?xs = "filter (\<lambda>line. \<not> str_includes line b) (split_nl c)"
  from Cons.prems have ne: "\<forall>b \<in> set bs. b \<noteq> []" by simp
  have step: "snd (fold sanitize_pass (b # bs) (c, n)) =
      n + (length (split_nl c) - length ?xs) +
      length (filter (unsafe bs) (split_nl (join_nl ?xs)))"
    by (simp add: sanitize_pass_eq Cons.IH [OF ne])
  have total: "length (filter (unsafe (b # bs)) (split_nl c)) =
      (length (split_nl c) - length ?xs) + length (filter (unsafe bs) ?xs)"
  proof -
    have "unsafe (b # bs) = (\<lambda>l. str_includes l b \<or> unsafe bs l)"
      by (rule ext) (simp add: unsafe_Cons)
    then show ?thesis
      using count_split [of "\<lambda>l. str_includes l b" "unsafe bs" "split_nl c"]
      by (simp only:)
  qed
  show ?case
  proof (cases "?xs = []")
    case True
    have "filter (unsafe bs) (split_nl (join_nl ?xs)) = []"
      using True unsafe_empty_line [OF ne] by simp
    with step have "snd (fold sanitize_pass (b # bs) (c, n)) =
        n + (length (split_nl c) - length ?xs) + 0"
      by (simp only: list.size)
    moreover have "length (filter (unsafe bs) ?xs) = 0" using True by simp
    ultimately show ?thesis using total by arith
  next
    case False
    then have eq: "split_nl (join_nl ?xs) = ?xs" by (rule split_join_filter)
    from step have "snd (fold sanitize_pass (b # bs) (c, n)) =
        n + (length (split_nl c) - length ?xs) + length (filter (unsafe bs) ?xs)"
      by (simp only: eq)
    with total show ?thesis by arith
  qed
qed

lemma sanitize_content:
  "fst (sanitize bs c) = join_nl (filter (\<lambda>line. \<not> unsafe bs line) (split_nl c))"
  by (simp add: sanitize_def fold_sanitize_content)

lemma sanitize_count:
  "\<forall>b \<in> set bs. b \<noteq> [] \<Longrightarrow> snd (sanitize bs c) = length (filter (unsafe bs) (split_nl c))"
  by (simp add: sanitize_def fold_sanitize_count)

lemma length_filter_compl:
  "length (filter P xs) = length xs - length (filter (\<lambda>x. \<not> P x) xs)"
  using sum_length_filter_compl [of P xs] by arith

lemma sanitize_single_eq:
  "sanitize_single bs c =
     (join_nl (filter (\<lambda>line. \<not> unsafe bs line) (split_nl c)),
      length (filter (unsafe bs) (split_nl c)))"
  using length_filter_compl [of "unsafe bs" "split_nl c"]
  by (simp add: sanitize_single_def Let_def)

lemma sanitize_again_content:
  "fst (sanitize bs (fst (sanitize bs c))) = fst (sanitize bs c)"
proof -
  let ?xs = "filter (\<lambda>line. \<not> unsafe bs line) (split_nl c)"
  show ?thesis
  proof (cases "?xs = []")
    case True
    then show ?thesis by (simp add: sanitize_content)
  next
    case False
    then have "split_nl (join_nl ?xs) = ?xs" by (rule split_join_filter)
    then show ?thesis by (simp add: sanitize_content)
  qed
qed

lemma sanitize_again_count:
  assumes ne: "\<forall>b \<in> set bs. b \<noteq> []"
  shows "snd (sanitize bs (fst (sanitize bs c))) = 0"
proof -
  let ?xs = "filter (\<lambda>line. \<not> unsafe bs line) (split_nl c)"
  have cnt: "snd (sanitize bs (join_nl ?xs)) =
      length (filter (unsafe bs) (split_nl (join_nl ?xs)))"
    using ne by (rule sanitize_count)
  show ?thesis
  proof (cases "?xs = []")
    case True
    then show ?thesis using cnt unsafe_empty_line [OF ne] by (simp add: sanitize_content)
  next
    case False
    then have "split_nl (join_nl ?xs) = ?xs" by (rule split_join_filter)
    then show ?thesis using cnt by (simp add: sanitize_content)
  qed
qed

lemma no_unsafe_count_zero:
  assumes "\<forall>line \<in> set (split_nl c). \<not> unsafe bs line"
  shows "snd (sanitize bs c) = 0"
proof -
  obtain l ls where l: "split_nl c = l # ls"
    using split_nl_nonempty [of c] by (cases "split_nl c") auto
  have ne: "\<forall>b \<in> set bs. b \<noteq> []"
  proof
    fix b assume b: "b \<in> set bs"
    show "b \<noteq> []"
    proof
      assume "b = []"
      with b have "unsafe bs l" using includes_empty [of l] by (auto simp: unsafe_iff)
      with assms l show False by simp
    qed
  qed
  have "filter (unsafe bs) (split_nl c) = []" using assms by simp
  with sanitize_count [OF ne, of c] show ?thesis by simp
qed

section \<open>Facts about the steps of the script\<close>

lemma succeeded_iff: "succeeded r = (r = ExitStatus 0)"
  by (cases r) auto

lemma runCommand_ok:
  "fst (execSync e command (fst s)) = ExitStatus 0 \<Longrightarrow>
     runCommand e command s =
       (Inr (), (snd (execSync e command (fst s)),
                 snd s @ [Info (''> '' @ command), Exec command]))"
  by (simp add: runCommand_def emit_def Let_def)

lemma runCommand_failed:
  "fst (execSync e command (fst s)) \<noteq> ExitStatus 0 \<Longrightarrow>
     runCommand e command s =
       (Inl (Exit 1), (snd (execSync e command (fst s)),
                 snd s @ [Info (''> '' @ command), Exec command,
                          ErrorMsg (commandFailed command)]))"
  by (simp add: runCommand_def emit_def Let_def succeeded_iff)

lemma commandFailed_names: "str_includes (commandFailed command) command"
  unfolding includes_sublist commandFailed_def
  by (rule sublist_appendI)

lemma generate_ok:
  "execSync e (generateCommand name) w = (ExitStatus 0, w1) \<Longrightarrow>
     generate e name (w, tr) =
       (Inr (), (w1, tr @ [Info step1Message, Info (''> '' @ generateCommand name),
                           Exec (generateCommand name)]))"
  by (simp add: generate_def runCommand_ok emit_def)

lemma generate_failed:
  "execSync e (generateCommand name) w = (r, w1) \<Longrightarrow> r \<noteq> ExitStatus 0 \<Longrightarrow>
     generate e name (w, tr) =
       (Inl (Exit 1), (w1, tr @ [Info step1Message, Info (''> '' @ generateCommand name),
                           Exec (generateCommand name),
                           ErrorMsg (commandFailed (generateCommand name))]))"
  by (simp add: generate_def runCommand_failed emit_def)

lemma locate_no_root:
  "dirs w (migrationsDirOf e) = None \<Longrightarrow>
     locate e (w, tr) =
       (Inl (Uncaught (ReaddirFailed (migrationsDirOf e))),
        (w, tr @ [Info step2Message, Readdir (migrationsDirOf e)]))"
  by (simp add: locate_def emit_def Let_def)

lemma locate_not_found:
  "dirs w (migrationsDirOf e) = Some entries \<Longrightarrow> falsy (latestMigrationDirName entries) \<Longrightarrow>
     locate e (w, tr) =
       (Inl (Exit 1),
        (w, tr @ [Info step2Message, Readdir (migrationsDirOf e), ErrorMsg notFoundMessage]))"
  by (simp add: locate_def emit_def Let_def)

lemma locate_found:
  "dirs w (migrationsDirOf e) = Some entries \<Longrightarrow>
   latestMigrationDirName entries = Some latest \<Longrightarrow> latest \<noteq> [] \<Longrightarrow>
     locate e (w, tr) =
       (Inr (path_join (migrationsDirOf e) [latest, ''migration.sql'']),
        (w, tr @ [Info step2Message, Readdir (migrationsDirOf e),
                  Log (''Found: '' @
                       show_path (path_join (migrationsDirOf e) [latest, ''migration.sql'']))]))"
  by (simp add: locate_def emit_def Let_def)

text \<open>Whatever it finds, the locator lists the root and does nothing else.\<close>

lemma locate_lists_root:
  "effects (snd (snd (locate e (w, tr)))) = effects tr @ [Readdir (migrationsDirOf e)]
   \<and> fst (snd (locate e (w, tr))) = w"
proof (cases "dirs w (migrationsDirOf e)")
  case None
  then show ?thesis by (simp add: locate_no_root effects_def)
next
  case (Some entries)
  show ?thesis
  proof (cases "falsy (latestMigrationDirName entries)")
    case True
    with Some show ?thesis by (simp add: locate_not_found effects_def)
  next
    case False
    then obtain latest where "latestMigrationDirName entries = Some latest" "latest \<noteq> []"
      by (cases "latestMigrationDirName entries") auto
    with Some show ?thesis by (simp add: locate_found effects_def)
  qed
qed

lemma cleanup_unreadable:
  "files w p = None \<Longrightarrow>
     cleanup bs p (w, tr) =
       (Inl (Uncaught (ReadFailed p)), (w, tr @ [Info step3Message, ReadFile p]))"
  by (simp add: cleanup_def emit_def Let_def)

lemma cleanup_clean:
  "files w p = Some c \<Longrightarrow> snd (sanitize bs c) = 0 \<Longrightarrow>
     cleanup bs p (w, tr) =
       (Inr 0, (w, tr @ [Info step3Message, ReadFile p, Info cleanMessage]))"
  by (simp add: cleanup_def emit_def Let_def)

lemma cleanup_write_failed:
  "files w p = Some c \<Longrightarrow> 0 < snd (sanitize bs c) \<Longrightarrow> \<not> writable w p \<Longrightarrow>
     cleanup bs p (w, tr) =
       (Inl (Uncaught (WriteFailed p)),
        (w, tr @ [Info step3Message, ReadFile p, WriteFile p (fst (sanitize bs c))]))"
  by (simp add: cleanup_def emit_def Let_def)

lemma cleanup_written:
  "files w p = Some c \<Longrightarrow> 0 < snd (sanitize bs c) \<Longrightarrow> writable w p \<Longrightarrow>
     cleanup bs p (w, tr) =
       (Inr (snd (sanitize bs c)),
        (w\<lparr>files := (files w)(p \<mapsto> fst (sanitize bs c))\<rparr>,
         tr @ [Info step3Message, ReadFile p, WriteFile p (fst (sanitize bs c)),
               Info (removedMessage (snd (sanitize bs c)))]))"
  by (simp add: cleanup_def emit_def Let_def)



lemma main_named:
  "argv2 e = Some name \<Longrightarrow> name \<noteq> [] \<Longrightarrow>
     main e w =
       andThen (generate e name (w, [])) (\<lambda>_ s1.
       andThen (locate e s1) (\<lambda>migrationFilePath s2.
       andThen (cleanup linesToRemove migrationFilePath s2) (\<lambda>_ s3.
       andThen (applyMigrations e s3) (\<lambda>_ s4.
         (Inr (), emit (Info completedMessage) s4)))))"
  by (simp add: main_def)




lemma main_read_failed:
  assumes "argv2 e = Some name" and "name \<noteq> []"
    and "execSync e (generateCommand name) w = (ExitStatus 0, w1)"
    and "dirs w1 (migrationsDirOf e) = Some entries"
    and "latestMigrationDirName entries = Some latest" and "latest \<noteq> []"
    and "files w1 (path_join (migrationsDirOf e) [latest, ''migration.sql'']) = None"
  shows "main e w =
     (Inl (Uncaught (ReadFailed (path_join (migrationsDirOf e) [latest, ''migration.sql'']))),
      (w1, [Info step1Message, Info (''> '' @ generateCommand name),
            Exec (generateCommand name),
            Info step2Message, Readdir (migrationsDirOf e),
            Log (''Found: '' @
                 show_path (path_join (migrationsDirOf e) [latest, ''migration.sql''])),
            Info step3Message,
            ReadFile (path_join (migrationsDirOf e) [latest, ''migration.sql''])]))"
  using assms
  by (simp add: main_named generate_ok [where tr = "[]", simplified]
      locate_found cleanup_unreadable)

section \<open>Facts about the order of the entries\<close>

lemma latest_short: "length entries < 2 \<Longrightarrow> latestMigrationDirName entries = None"
  by (simp add: latestMigrationDirName_def allMigrationsOf_def nth_opt_def)

lemma latest_long:
  "2 \<le> length entries \<Longrightarrow>
     latestMigrationDirName entries = Some (sort entries ! (length entries - 2))"
  by (simp add: latestMigrationDirName_def allMigrationsOf_def nth_opt_def rev_nth
        numeral_2_eq_2)

lemma sorted_top_is_greatest:
  assumes "sorted xs" and "m \<in> set xs" and "\<forall>x \<in> set xs. x \<le> m"
  shows "xs ! (length xs - 1) = (m :: 'a :: linorder)"
proof -
  from assms(2) have ne: "xs \<noteq> []" by auto
  then have top: "xs ! (length xs - 1) \<in> set xs" by simp
  from assms(2) obtain k where k: "k < length xs" "xs ! k = m"
    by (auto simp: in_set_conv_nth)
  then have "m \<le> xs ! (length xs - 1)"
    using sorted_nth_mono [OF assms(1), of k "length xs - 1"] ne by auto
  moreover have "xs ! (length xs - 1) \<le> m" using top assms(3) by blast
  ultimately show ?thesis by simp
qed

lemma sorted_second_is_next:
  assumes "sorted xs" and "distinct xs" and "2 \<le> length xs"
    and "x \<in> set xs" and "x \<noteq> xs ! (length xs - 1)"
  shows "x \<le> (xs ! (length xs - 2) :: 'a :: linorder)"
proof -
  from assms(4) obtain k where k: "k < length xs" "xs ! k = x"
    by (auto simp: in_set_conv_nth)
  with assms(5) have "k \<noteq> length xs - 1" by auto
  with k(1) have "k \<le> length xs - 2" by arith
  then show ?thesis
    using sorted_nth_mono [OF assms(1), of k "length xs - 2"] k assms(3) by auto
qed

lemma second_differs_from_top:
  assumes "distinct xs" and "2 \<le> length xs"
  shows "xs ! (length xs - 2) \<noteq> xs ! (length xs - 1)"
  using assms by (auto simp: nth_eq_iff_index_eq)

lemma latest_skips_marker:
  assumes d: "distinct entries" and m: "marker \<in> set entries"
    and top: "\<forall>x \<in> set entries. x \<le> marker" and two: "2 \<le> length entries"
  shows "allMigrationsOf entries ! 0 = marker"
    and "latestMigrationDirName entries = Some (sort entries ! (length entries - 2))"
    and "sort entries ! (length entries - 2) \<in> set entries"
    and "sort entries ! (length entries - 2) \<noteq> marker"
    and "\<forall>x \<in> set entries. x \<noteq> marker \<longrightarrow> x \<le> sort entries ! (length entries - 2)"
proof -
  let ?xs = "sort entries"
  have s: "sorted ?xs" and dx: "distinct ?xs" and len: "length ?xs = length entries"
    and set: "set ?xs = set entries"
    using d by simp_all
  have topx: "?xs ! (length ?xs - 1) = marker"
    using s m top by (intro sorted_top_is_greatest) (simp_all add: set)
  show "allMigrationsOf entries ! 0 = marker"
  proof -
    from two have "0 < length entries" by arith
    then have "0 < length ?xs" by (simp only: len)
    then have "rev ?xs ! 0 = ?xs ! (length ?xs - Suc 0)" by (rule rev_nth)
    with topx show ?thesis by (simp add: allMigrationsOf_def)
  qed
  show "latestMigrationDirName entries = Some (?xs ! (length entries - 2))"
    using two by (rule latest_long)
  have "?xs ! (length ?xs - 2) \<in> set ?xs"
    using two by (intro nth_mem) (simp add: len)
  then show "?xs ! (length entries - 2) \<in> set entries" by (simp add: len)
  show "?xs ! (length entries - 2) \<noteq> marker"
    using second_differs_from_top [OF dx] two topx by (simp add: len)
  show "\<forall>x \<in> set entries. x \<noteq> marker \<longrightarrow> x \<le> ?xs ! (length entries - 2)"
  proof (intro ballI impI)
    fix x assume "x \<in> set entries" and "x \<noteq> marker"
    then show "x \<le> ?xs ! (length entries - 2)"
      using sorted_second_is_next [OF s dx, of x] two topx by (simp add: len)
  qed
qed

section \<open>Every way a run stops\<close>





section \<open>Facts about the concrete scripts, worlds and runs\<close>

lemma example_sanitized:
  "sanitize linesToRemove example_script =
     (join_nl [''CREATE TABLE X (...);'', ''CREATE INDEX y ON z;''], 2)"
  by code_simp

lemma clean_script_lines: "split_nl ''CREATE INDEX y ON z;'' = [''CREATE INDEX y ON z;'']"
  by code_simp

lemma clean_script_safe: "\<not> unsafe linesToRemove ''CREATE INDEX y ON z;''"
  by code_simp

lemma example_sorted:
  "allMigrationsOf example_entries = [''migration_lock.toml'', ''20240102_b'', ''20240101_a'']"
  by code_simp

lemma example_latest: "latestMigrationDirName example_entries = Some ''20240102_b''"
  by code_simp

lemma example_file_eq: "path_join example_root [''20240102_b'', ''migration.sql''] = example_file"
  by (simp add: path_join_def example_file_def)

lemma ok_env_root: "migrationsDirOf ok_env = example_root"
  by (simp add: migrationsDirOf_def ok_env_def example_root_def path_join_def)

lemma ok_env_name: "argv2 ok_env = Some ''add_users''"
  by (simp add: ok_env_def)

lemma ok_env_exec: "execSync ok_env command w = (ExitStatus 0, w)"
  by (simp add: ok_env_def)


lemma unreadable_run:
  "main ok_env unreadable_world =
     (Inl (Uncaught (ReadFailed example_file)),
      (unreadable_world,
       [Info step1Message, Info (''> '' @ generateCommand ''add_users''),
        Exec (generateCommand ''add_users''),
        Info step2Message, Readdir example_root,
        Log (''Found: '' @ show_path example_file),
        Info step3Message, ReadFile example_file]))"
proof -
  have n: "''add_users'' \<noteq> []" and l: "''20240102_b'' \<noteq> []" by simp_all
  have d: "dirs unreadable_world (migrationsDirOf ok_env) = Some example_entries"
    by (simp add: unreadable_world_def example_world_def ok_env_root)
  have f: "files unreadable_world
      (path_join (migrationsDirOf ok_env) [''20240102_b'', ''migration.sql'']) = None"
    by (simp add: unreadable_world_def)
  from main_read_failed [OF ok_env_name n ok_env_exec d example_latest l f]
  show ?thesis by (simp only: ok_env_root example_file_eq)
qed

section \<open>The sanitizer: what is retained and what is counted\<close>

text \<open>
  C1 (as amended). For every script content and every blacklist, the content after the
  sanitize loop is the join of exactly those lines of the input that contain no blacklist
  substring; when at least one line is retained, the lines of the result are exactly those
  lines; and the retained lines are a subsequence of the input lines, so they keep their
  relative order. When no blacklist entry is the empty string, the reported count is the
  number of input lines that contain at least one blacklist substring. On the four-line
  example script with the two configured statement fragments, the result is the two
  CREATE lines in order and the count is 2.
\<close>

theorem sanitize_retains_safe_lines:
  "fst (sanitize blacklist content) =
      join_nl (filter (\<lambda>line. \<not> unsafe blacklist line) (split_nl content))
   \<and> (filter (\<lambda>line. \<not> unsafe blacklist line) (split_nl content) \<noteq> [] \<longrightarrow>
        split_nl (fst (sanitize blacklist content)) =
          filter (\<lambda>line. \<not> unsafe blacklist line) (split_nl content))
   \<and> subseq (filter (\<lambda>line. \<not> unsafe blacklist line) (split_nl content)) (split_nl content)
   \<and> ((\<forall>b \<in> set blacklist. b \<noteq> []) \<longrightarrow>
        snd (sanitize blacklist content) =
          length (filter (unsafe blacklist) (split_nl content)))
   \<and> split_nl example_script = example_lines
   \<and> sanitize linesToRemove example_script =
        (join_nl [''CREATE TABLE X (...);'', ''CREATE INDEX y ON z;''], 2)"
proof (intro conjI impI)
  show "fst (sanitize blacklist content) =
      join_nl (filter (\<lambda>line. \<not> unsafe blacklist line) (split_nl content))"
    by (rule sanitize_content)
  show "split_nl (fst (sanitize blacklist content)) =
          filter (\<lambda>line. \<not> unsafe blacklist line) (split_nl content)"
    if "filter (\<lambda>line. \<not> unsafe blacklist line) (split_nl content) \<noteq> []"
    using split_join_filter [OF that] by (simp only: sanitize_content)
  show "subseq (filter (\<lambda>line. \<not> unsafe blacklist line) (split_nl content)) (split_nl content)"
    by (rule subseq_filter_left)
  show "snd (sanitize blacklist content) =
          length (filter (unsafe blacklist) (split_nl content))"
    if "\<forall>b \<in> set blacklist. b \<noteq> []"
    using that by (rule sanitize_count)
  show "split_nl example_script = example_lines"
    by code_simp
  show "sanitize linesToRemove example_script =
        (join_nl [''CREATE TABLE X (...);'', ''CREATE INDEX y ON z;''], 2)"
    by code_simp
qed

text \<open>The theorem at a script of four lines, one of which contains both substrings.\<close>

theorem sanitize_retains_safe_lines_witness:
  "fst (sanitize [''DROP'', ''ALTER''] ''CREATE a\<newline>DROP b\<newline>ALTER c DROP d\<newline>CREATE e'') =
      ''CREATE a\<newline>CREATE e''
   \<and> split_nl (fst (sanitize [''DROP'', ''ALTER''] ''CREATE a\<newline>DROP b\<newline>ALTER c DROP d\<newline>CREATE e'')) =
      [''CREATE a'', ''CREATE e'']
   \<and> snd (sanitize [''DROP'', ''ALTER''] ''CREATE a\<newline>DROP b\<newline>ALTER c DROP d\<newline>CREATE e'') = 2"
proof -
  let ?B = "[''DROP'', ''ALTER'']"
  let ?c = "''CREATE a\<newline>DROP b\<newline>ALTER c DROP d\<newline>CREATE e''"
  note T = sanitize_retains_safe_lines [of ?B ?c]
  have ne: "\<forall>b \<in> set ?B. b \<noteq> []" by simp
  have kept: "filter (\<lambda>line. \<not> unsafe ?B line) (split_nl ?c) = [''CREATE a'', ''CREATE e'']"
    by code_simp
  have dropped: "length (filter (unsafe ?B) (split_nl ?c)) = 2"
    by code_simp
  have j: "join_nl [''CREATE a'', ''CREATE e''] = ''CREATE a\<newline>CREATE e''"
    by code_simp
  have a: "fst (sanitize ?B ?c) = ''CREATE a\<newline>CREATE e''"
    using T [THEN conjunct1] by (simp only: kept j)
  have b: "split_nl (fst (sanitize ?B ?c)) = [''CREATE a'', ''CREATE e'']"
    using T [THEN conjunct2, THEN conjunct1] by (simp only: kept list.distinct not_False_eq_True simp_thms)
  have c: "snd (sanitize ?B ?c) = 2"
    using T [THEN conjunct2, THEN conjunct2, THEN conjunct2, THEN conjunct1] ne
    by (simp only: dropped simp_thms)
  from a b c show ?thesis by (intro conjI)
qed

text \<open>
  The count as C1 states it, for every blacklist, fails when a blacklist entry is the empty
  string: on the one-line script \<open>a\<close> with the blacklist \<open>a\<close>, empty string, the first round
  drops the line and leaves the empty content, which the second round splits into one
  empty line and drops again. The count is 2; the script has one line.
\<close>

theorem sanitize_count_counterexample:
  "snd (sanitize [''a'', ''''] ''a'') = 2
   \<and> length (filter (unsafe [''a'', '''']) (split_nl ''a'')) = 1
   \<and> length (split_nl ''a'') = 1"
  by code_simp

section \<open>The conditional write\<close>

text \<open>
  C2. Step 3 writes the script only when the removed-line count is greater than zero.
  When the script cannot be read, nothing is written and the world stays as it is. When
  no line of the script contains a blacklist substring, the count is 0; when the count is
  0 the step returns 0, leaves the world as it is (so the file keeps its content) and adds
  no write to the trace. If the world changed or a write was added then the count was
  positive, and a positive count adds exactly one write, of the sanitized content.
\<close>

theorem cleanup_writes_only_when_removed:
  "(files w p = None \<longrightarrow>
      fst (snd (cleanup blacklist p (w, tr))) = w
      \<and> filter is_write (snd (snd (cleanup blacklist p (w, tr)))) = filter is_write tr)
   \<and> (files w p = Some content \<longrightarrow>
        ((\<forall>line \<in> set (split_nl content). \<not> unsafe blacklist line) \<longrightarrow>
           snd (sanitize blacklist content) = 0)
      \<and> (snd (sanitize blacklist content) = 0 \<longrightarrow>
           cleanup blacklist p (w, tr) =
             (Inr 0, (w, tr @ [Info step3Message, ReadFile p, Info cleanMessage])))
      \<and> (fst (snd (cleanup blacklist p (w, tr))) \<noteq> w
           \<or> filter is_write (snd (snd (cleanup blacklist p (w, tr)))) \<noteq> filter is_write tr \<longrightarrow>
           0 < snd (sanitize blacklist content))
      \<and> (0 < snd (sanitize blacklist content) \<longrightarrow>
           filter is_write (snd (snd (cleanup blacklist p (w, tr)))) =
             filter is_write tr @ [WriteFile p (fst (sanitize blacklist content))]))"
proof (intro conjI impI)
  assume "files w p = None"
  then show "fst (snd (cleanup blacklist p (w, tr))) = w"
    and "filter is_write (snd (snd (cleanup blacklist p (w, tr)))) = filter is_write tr"
    by (simp_all add: cleanup_unreadable)
next
  assume "\<forall>line \<in> set (split_nl content). \<not> unsafe blacklist line"
  then show "snd (sanitize blacklist content) = 0"
    by (rule no_unsafe_count_zero)
next
  assume "files w p = Some content" and "snd (sanitize blacklist content) = 0"
  then show "cleanup blacklist p (w, tr) =
      (Inr 0, (w, tr @ [Info step3Message, ReadFile p, Info cleanMessage]))"
    by (rule cleanup_clean)
next
  assume f: "files w p = Some content"
    and changed: "fst (snd (cleanup blacklist p (w, tr))) \<noteq> w
      \<or> filter is_write (snd (snd (cleanup blacklist p (w, tr)))) \<noteq> filter is_write tr"
  show "0 < snd (sanitize blacklist content)"
  proof (rule ccontr)
    assume "\<not> 0 < snd (sanitize blacklist content)"
    then have "snd (sanitize blacklist content) = 0" by simp
    with f changed show False by (simp add: cleanup_clean)
  qed
next
  assume f: "files w p = Some content" and pos: "0 < snd (sanitize blacklist content)"
  show "filter is_write (snd (snd (cleanup blacklist p (w, tr)))) =
      filter is_write tr @ [WriteFile p (fst (sanitize blacklist content))]"
  proof (cases "writable w p")
    case True
    with f pos show ?thesis by (simp add: cleanup_written)
  next
    case False
    with f pos show ?thesis by (simp add: cleanup_write_failed)
  qed
qed

text \<open>
  The theorem at a clean script (count 0, no write, world unchanged), at the example
  script (count 2, one write), and at a script that cannot be read.
\<close>

theorem cleanup_writes_only_when_removed_witness:
  "cleanup linesToRemove example_file (clean_world, []) =
     (Inr 0, (clean_world, [Info step3Message, ReadFile example_file, Info cleanMessage]))
   \<and> filter is_write (snd (snd (cleanup linesToRemove example_file (example_world, [])))) =
       [WriteFile example_file (join_nl [''CREATE TABLE X (...);'', ''CREATE INDEX y ON z;''])]
   \<and> 0 < snd (sanitize linesToRemove example_script)
   \<and> fst (snd (cleanup linesToRemove example_file (unreadable_world, []))) =
       unreadable_world"
proof -
  let ?clean = "''CREATE INDEX y ON z;''"
  note T = cleanup_writes_only_when_removed
  have f1: "files clean_world example_file = Some ?clean"
    by (simp add: clean_world_def example_world_def)
  have safe: "\<forall>line \<in> set (split_nl ?clean). \<not> unsafe linesToRemove line"
    by (simp only: clean_script_lines list.set ball_simps clean_script_safe simp_thms)
  from T [of clean_world example_file linesToRemove "[]" ?clean] f1 safe
  have zero: "snd (sanitize linesToRemove ?clean) = 0" by blast
  from T [of clean_world example_file linesToRemove "[]" ?clean] f1 zero
  have a: "cleanup linesToRemove example_file (clean_world, []) =
     (Inr 0, (clean_world, [Info step3Message, ReadFile example_file, Info cleanMessage]))"
    by simp
  have f2: "files example_world example_file = Some example_script"
    by (simp add: example_world_def)
  have pos: "0 < snd (sanitize linesToRemove example_script)"
    by (simp add: example_sanitized)
  from T [of example_world example_file linesToRemove "[]" example_script] f2 pos
  have b: "filter is_write (snd (snd (cleanup linesToRemove example_file (example_world, [])))) =
       [WriteFile example_file (join_nl [''CREATE TABLE X (...);'', ''CREATE INDEX y ON z;''])]"
    by (simp add: example_sanitized)
  have "filter is_write (snd (snd (cleanup linesToRemove example_file (example_world, [])))) \<noteq>
       filter is_write []"
    by (simp only: b) simp
  with T [of example_world example_file linesToRemove "[]" example_script] f2
  have c: "0 < snd (sanitize linesToRemove example_script)" by blast
  have f3: "files unreadable_world example_file = None"
    by (simp add: unreadable_world_def)
  from T [of unreadable_world example_file linesToRemove "[]"] f3
  have d: "fst (snd (cleanup linesToRemove example_file (unreadable_world, []))) =
       unreadable_world"
    by blast
  from a b c d show ?thesis by (intro conjI)
qed

section \<open>Idempotence\<close>

text \<open>
  C3 (as amended). For every script and blacklist, sanitizing the sanitized content leaves
  the content as it is. When no blacklist entry is the empty string, the second run also
  removes zero lines: its result is the sanitized content with the count 0.
\<close>

theorem sanitize_idempotent:
  "fst (sanitize blacklist (fst (sanitize blacklist content))) = fst (sanitize blacklist content)
   \<and> ((\<forall>b \<in> set blacklist. b \<noteq> []) \<longrightarrow>
        sanitize blacklist (fst (sanitize blacklist content)) =
          (fst (sanitize blacklist content), 0))"
  using sanitize_again_content [of blacklist content] sanitize_again_count [of blacklist content]
  by (simp add: prod_eq_iff)

text \<open>The theorem at the example script and the configured blacklist.\<close>

theorem sanitize_idempotent_witness:
  "sanitize linesToRemove example_script =
     (join_nl [''CREATE TABLE X (...);'', ''CREATE INDEX y ON z;''], 2)
   \<and> sanitize linesToRemove (join_nl [''CREATE TABLE X (...);'', ''CREATE INDEX y ON z;'']) =
     (join_nl [''CREATE TABLE X (...);'', ''CREATE INDEX y ON z;''], 0)"
proof -
  have ne: "\<forall>b \<in> set linesToRemove. b \<noteq> []"
    by (simp add: linesToRemove_def)
  have first: "sanitize linesToRemove example_script =
      (join_nl [''CREATE TABLE X (...);'', ''CREATE INDEX y ON z;''], 2)"
    by code_simp
  from sanitize_idempotent [of linesToRemove example_script] ne
  have "sanitize linesToRemove (fst (sanitize linesToRemove example_script)) =
      (fst (sanitize linesToRemove example_script), 0)"
    by (simp only: simp_thms)
  then have "sanitize linesToRemove (join_nl [''CREATE TABLE X (...);'', ''CREATE INDEX y ON z;'']) =
      (join_nl [''CREATE TABLE X (...);'', ''CREATE INDEX y ON z;''], 0)"
    by (simp only: first fst_conv)
  with first show ?thesis by (intro conjI)
qed

text \<open>
  The second run removes zero lines for every blacklist: this fails when an entry is the
  empty string. With that blacklist the script \<open>a\<close> is sanitized to the empty content, and
  sanitizing the empty content counts one removed line again.
\<close>

theorem sanitize_rerun_counterexample:
  "fst (sanitize [''''] ''a'') = ''''
   \<and> snd (sanitize [''''] (fst (sanitize [''''] ''a''))) = 1"
  by code_simp

section \<open>The locator\<close>

text \<open>
  C4. The locator lists the migrations root, and that is its only external effect. It
  sorts the entries of the root descending by name (the
  reverse of the list is sorted, and it has the same entries and length), and selects the
  entry at offset 1. When that entry exists and is not the empty name, the path returned
  is the file \<open>migration.sql\<close> inside that directory of the root. When the entries are
  distinct and the marker is the greatest of them, the marker is at offset 0 and the
  selected entry is the greatest of the other entries. For the root entries
  \<open>20240101_a\<close>, \<open>20240102_b\<close>, \<open>migration_lock.toml\<close> the selected entry is \<open>20240102_b\<close>.
\<close>

theorem locate_selects_second_from_top:
  "effects (snd (snd (locate e (w, tr)))) = effects tr @ [Readdir (migrationsDirOf e)]
   \<and> sorted (rev (allMigrationsOf entries))
   \<and> set (allMigrationsOf entries) = set entries
   \<and> length (allMigrationsOf entries) = length entries
   \<and> (2 \<le> length entries \<longrightarrow>
        latestMigrationDirName entries = Some (allMigrationsOf entries ! 1))
   \<and> (dirs w (migrationsDirOf e) = Some entries \<and> 2 \<le> length entries
        \<and> allMigrationsOf entries ! 1 \<noteq> [] \<longrightarrow>
        fst (locate e (w, tr)) =
          Inr (path_join (migrationsDirOf e) [allMigrationsOf entries ! 1, ''migration.sql'']))
   \<and> (distinct entries \<and> marker \<in> set entries \<and> (\<forall>x \<in> set entries. x \<le> marker)
        \<and> 2 \<le> length entries \<longrightarrow>
        allMigrationsOf entries ! 0 = marker
        \<and> allMigrationsOf entries ! 1 \<in> set entries
        \<and> allMigrationsOf entries ! 1 \<noteq> marker
        \<and> (\<forall>x \<in> set entries. x \<noteq> marker \<longrightarrow> x \<le> allMigrationsOf entries ! 1))
   \<and> allMigrationsOf example_entries =
        [''migration_lock.toml'', ''20240102_b'', ''20240101_a'']
   \<and> latestMigrationDirName example_entries = Some ''20240102_b''"
proof -
  have nth1: "latestMigrationDirName entries = Some (allMigrationsOf entries ! 1)"
    if "2 \<le> length entries"
    using that by (simp add: latestMigrationDirName_def allMigrationsOf_def nth_opt_def)
  have second: "allMigrationsOf entries ! 1 = sort entries ! (length entries - 2)"
    if "2 \<le> length entries"
    using nth1 [OF that] latest_long [OF that] by simp
  have loc: "fst (locate e (w, tr)) =
      Inr (path_join (migrationsDirOf e) [allMigrationsOf entries ! 1, ''migration.sql''])"
    if "dirs w (migrationsDirOf e) = Some entries" and "2 \<le> length entries"
      and "allMigrationsOf entries ! 1 \<noteq> []"
    using locate_found [OF that(1) nth1 [OF that(2)] that(3)] by simp
  have mark: "allMigrationsOf entries ! 0 = marker
        \<and> allMigrationsOf entries ! 1 \<in> set entries
        \<and> allMigrationsOf entries ! 1 \<noteq> marker
        \<and> (\<forall>x \<in> set entries. x \<noteq> marker \<longrightarrow> x \<le> allMigrationsOf entries ! 1)"
    if "distinct entries" and "marker \<in> set entries" and "\<forall>x \<in> set entries. x \<le> marker"
      and "2 \<le> length entries"
    using latest_skips_marker [OF that] by (simp only: second [OF that(4)] simp_thms)
  have srt: "sorted (rev (allMigrationsOf entries))"
    by (simp add: allMigrationsOf_def)
  have st: "set (allMigrationsOf entries) = set entries"
    by (simp add: allMigrationsOf_def)
  have ln: "length (allMigrationsOf entries) = length entries"
    by (simp add: allMigrationsOf_def)
  have eff: "effects (snd (snd (locate e (w, tr)))) =
      effects tr @ [Readdir (migrationsDirOf e)]"
    using locate_lists_root [of e w tr] by (rule conjunct1)
  from eff srt st ln nth1 loc mark example_sorted example_latest show ?thesis
    by (intro conjI impI) blast+
qed

text \<open>
  The theorem at the example root, with \<open>migration_lock.toml\<close> as the marker.
\<close>

theorem locate_selects_second_from_top_witness:
  "fst (locate ok_env (example_world, [])) = Inr example_file
   \<and> allMigrationsOf example_entries ! 0 = ''migration_lock.toml''
   \<and> allMigrationsOf example_entries ! 1 = ''20240102_b''
   \<and> latestMigrationDirName example_entries = Some ''20240102_b''
   \<and> effects (snd (snd (locate ok_env (example_world, [])))) = [Readdir example_root]"
proof -
  note T = locate_selects_second_from_top
    [where entries = example_entries and w = example_world and e = ok_env
       and tr = "[]" and marker = "''migration_lock.toml''"]
  have d: "dirs example_world (migrationsDirOf ok_env) = Some example_entries"
    by (simp add: ok_env_root example_world_def)
  have two: "2 \<le> length example_entries"
    by (simp add: example_entries_def)
  have dist: "distinct example_entries"
    by (simp add: example_entries_def)
  have m: "''migration_lock.toml'' \<in> set example_entries"
    by (simp add: example_entries_def)
  have top: "\<forall>x \<in> set example_entries. x \<le> ''migration_lock.toml''"
    by code_simp
  from T two have l: "latestMigrationDirName example_entries =
      Some (allMigrationsOf example_entries ! 1)" by blast
  from T have "latestMigrationDirName example_entries = Some ''20240102_b''" by blast
  with l have one: "allMigrationsOf example_entries ! 1 = ''20240102_b''" by simp
  then have ne: "allMigrationsOf example_entries ! 1 \<noteq> []" by simp
  from T d two ne have "fst (locate ok_env (example_world, [])) =
      Inr (path_join (migrationsDirOf ok_env)
             [allMigrationsOf example_entries ! 1, ''migration.sql''])" by blast
  then have a: "fst (locate ok_env (example_world, [])) = Inr example_file"
    by (simp only: one ok_env_root example_file_eq)
  from T dist m top two have b: "allMigrationsOf example_entries ! 0 = ''migration_lock.toml''"
    by blast
  from T have "effects (snd (snd (locate ok_env (example_world, [])))) =
      effects [] @ [Readdir (migrationsDirOf ok_env)]" by blast
  then have c: "effects (snd (snd (locate ok_env (example_world, [])))) = [Readdir example_root]"
    by (simp add: ok_env_root effects_def)
  from a b c one l show ?thesis by simp
qed

section \<open>Discovery failures\<close>

text \<open>
  C5. After a successful generator command, each discovery failure aborts the run: when
  the migrations root cannot be listed, the exception of \<^verbatim>\<open>readdirSync\<close> leaves \<^verbatim>\<open>main\<close>;
  when the root is empty, or has no entry at offset 1, the run prints the not-found
  message and ends with exit code 1. In all three cases the world is the one the
  generator left, and the external effects are the generator command and the listing of
  the root only: no script is read or written and the apply command is not run.
\<close>

theorem discovery_failure_aborts:
  assumes "argv2 e = Some name" and "name \<noteq> []"
    and "execSync e (generateCommand name) w = (ExitStatus 0, w1)"
  shows "(dirs w1 (migrationsDirOf e) = None \<longrightarrow>
            fst (main e w) = Inl (Uncaught (ReaddirFailed (migrationsDirOf e)))
            \<and> fst (snd (main e w)) = w1
            \<and> effects (snd (snd (main e w))) =
                [Exec (generateCommand name), Readdir (migrationsDirOf e)])
       \<and> (dirs w1 (migrationsDirOf e) = Some [] \<longrightarrow>
            fst (main e w) = Inl (Exit 1)
            \<and> last (snd (snd (main e w))) = ErrorMsg notFoundMessage
            \<and> fst (snd (main e w)) = w1
            \<and> effects (snd (snd (main e w))) =
                [Exec (generateCommand name), Readdir (migrationsDirOf e)])
       \<and> (dirs w1 (migrationsDirOf e) = Some entries \<and> length entries < 2 \<longrightarrow>
            fst (main e w) = Inl (Exit 1)
            \<and> last (snd (snd (main e w))) = ErrorMsg notFoundMessage
            \<and> fst (snd (main e w)) = w1
            \<and> effects (snd (snd (main e w))) =
                [Exec (generateCommand name), Readdir (migrationsDirOf e)])"
proof -
  note gen = generate_ok [OF assms(3), of "[]", simplified]
  have short: "fst (main e w) = Inl (Exit 1)
            \<and> last (snd (snd (main e w))) = ErrorMsg notFoundMessage
            \<and> fst (snd (main e w)) = w1
            \<and> effects (snd (snd (main e w))) =
                [Exec (generateCommand name), Readdir (migrationsDirOf e)]"
    if "dirs w1 (migrationsDirOf e) = Some xs" and "length xs < 2" for xs
    using that assms(1,2)
    by (simp add: main_named gen locate_not_found latest_short effects_def)
  have none: "fst (main e w) = Inl (Uncaught (ReaddirFailed (migrationsDirOf e)))
            \<and> fst (snd (main e w)) = w1
            \<and> effects (snd (snd (main e w))) =
                [Exec (generateCommand name), Readdir (migrationsDirOf e)]"
    if "dirs w1 (migrationsDirOf e) = None"
    using that assms(1,2)
    by (simp add: main_named gen locate_no_root effects_def)
  show ?thesis using none short [of "[]"] short [of entries] by simp
qed

text \<open>
  The theorem at a world with no migrations root, one with an empty root, and one whose
  root holds the marker only.
\<close>

theorem discovery_failure_aborts_witness:
  "fst (main ok_env rootless_world) = Inl (Uncaught (ReaddirFailed example_root))
   \<and> effects (snd (snd (main ok_env rootless_world))) =
       [Exec (generateCommand ''add_users''), Readdir example_root]
   \<and> fst (main ok_env empty_root_world) = Inl (Exit 1)
   \<and> effects (snd (snd (main ok_env empty_root_world))) =
       [Exec (generateCommand ''add_users''), Readdir example_root]
   \<and> fst (main ok_env lock_only_world) = Inl (Exit 1)
   \<and> last (snd (snd (main ok_env lock_only_world))) = ErrorMsg notFoundMessage
   \<and> fst (snd (main ok_env lock_only_world)) = lock_only_world
   \<and> effects (snd (snd (main ok_env lock_only_world))) =
       [Exec (generateCommand ''add_users''), Readdir example_root]"
proof -
  have n: "''add_users'' \<noteq> []" by simp
  note T = discovery_failure_aborts [OF ok_env_name n ok_env_exec]
  have d1: "dirs rootless_world (migrationsDirOf ok_env) = None"
    by (simp add: rootless_world_def)
  have d2: "dirs empty_root_world (migrationsDirOf ok_env) = Some []"
    by (simp add: empty_root_world_def ok_env_root)
  have d3: "dirs lock_only_world (migrationsDirOf ok_env) = Some [''migration_lock.toml'']
      \<and> length [''migration_lock.toml''] < 2"
    by (simp add: lock_only_world_def ok_env_root)
  from T [of rootless_world "[]"] d1
  have a: "fst (main ok_env rootless_world) = Inl (Uncaught (ReaddirFailed example_root))
     \<and> effects (snd (snd (main ok_env rootless_world))) =
       [Exec (generateCommand ''add_users''), Readdir example_root]"
    by (simp add: ok_env_root)
  from T [of empty_root_world "[]"] d2
  have b: "fst (main ok_env empty_root_world) = Inl (Exit 1)
     \<and> effects (snd (snd (main ok_env empty_root_world))) =
       [Exec (generateCommand ''add_users''), Readdir example_root]"
    by (simp add: ok_env_root)
  from T [of lock_only_world "[''migration_lock.toml'']"] d3
  have c: "fst (main ok_env lock_only_world) = Inl (Exit 1)
   \<and> last (snd (snd (main ok_env lock_only_world))) = ErrorMsg notFoundMessage
   \<and> fst (snd (main ok_env lock_only_world)) = lock_only_world
   \<and> effects (snd (snd (main ok_env lock_only_world))) =
       [Exec (generateCommand ''add_users''), Readdir example_root]"
    by (simp add: ok_env_root)
  from a b c show ?thesis by simp
qed

section \<open>A missing migration name\<close>

text \<open>
  C6. When the migration name is absent or empty, the run ends with exit code 1 after the
  usage message, and that message is its only event: no external command is run, no
  file system call is made, and the world is the one it started from.
\<close>

theorem missing_name_usage_error:
  "argv2 e = None \<or> argv2 e = Some [] \<Longrightarrow>
     main e w = (Inl (Exit 1), (w, [ErrorMsg usageMessage]))
     \<and> effects (snd (snd (main e w))) = []"
  by (auto simp: main_def emit_def effects_def)

text \<open>
  The theorem at a run with no name and at a run with the empty name.
\<close>

theorem missing_name_usage_error_witness:
  "main nameless_env example_world = (Inl (Exit 1), (example_world, [ErrorMsg usageMessage]))
   \<and> main (ok_env\<lparr>argv2 := Some ''''\<rparr>) example_world =
       (Inl (Exit 1), (example_world, [ErrorMsg usageMessage]))"
proof -
  have a: "argv2 nameless_env = None \<or> argv2 nameless_env = Some []"
    by (simp add: nameless_env_def)
  have b: "argv2 (ok_env\<lparr>argv2 := Some ''''\<rparr>) = None \<or> argv2 (ok_env\<lparr>argv2 := Some ''''\<rparr>) = Some []"
    by simp
  from missing_name_usage_error [OF a, of example_world]
       missing_name_usage_error [OF b, of example_world]
  show ?thesis by (intro conjI) (erule conjunct1)+
qed

section \<open>A failing generator\<close>

text \<open>
  C7. When the generator command does not exit with status zero, the run ends with exit
  code 1 right after the message naming the generator command. Its only external effect
  is that one command: the migrations root is not listed, no script is read or written,
  and the apply command is not run.
\<close>

theorem generator_failure_short_circuits:
  assumes "argv2 e = Some name" and "name \<noteq> []"
    and "execSync e (generateCommand name) w = (r, w1)" and "r \<noteq> ExitStatus 0"
  shows "main e w =
       (Inl (Exit 1), (w1, [Info step1Message, Info (''> '' @ generateCommand name),
                            Exec (generateCommand name),
                            ErrorMsg (commandFailed (generateCommand name))]))
     \<and> effects (snd (snd (main e w))) = [Exec (generateCommand name)]"
  using assms by (simp add: main_named generate_failed [where tr = "[]", simplified] effects_def)

text \<open>
  The theorem at a run whose generator exits with status 1.
\<close>

theorem generator_failure_short_circuits_witness:
  "main failing_env example_world =
     (Inl (Exit 1), (example_world,
        [Info step1Message, Info (''> '' @ generateCommand ''add_users''),
         Exec (generateCommand ''add_users''),
         ErrorMsg (commandFailed (generateCommand ''add_users''))]))
   \<and> effects (snd (snd (main failing_env example_world))) =
       [Exec (generateCommand ''add_users'')]"
proof -
  have a: "argv2 failing_env = Some ''add_users''"
    by (simp add: failing_env_def ok_env_def)
  have b: "''add_users'' \<noteq> []" by simp
  have c: "execSync failing_env (generateCommand ''add_users'') example_world =
      (ExitStatus 1, example_world)"
    by (simp add: failing_env_def ok_env_def)
  have d: "ExitStatus 1 \<noteq> ExitStatus 0" by simp
  from generator_failure_short_circuits [OF a b c d] show ?thesis .
qed

section \<open>\<^verbatim>\<open>runCommand\<close>\<close>

text \<open>
  C8. \<^verbatim>\<open>runCommand\<close> returns normally if and only if the child process exits with status
  zero. On a nonzero status or a failure to spawn it prints the message that names the
  command (the command is a substring of the message) and ends the process with exit
  code 1. In both cases the command is run exactly once: the run adds one \<open>Exec\<close> event,
  so there is no retry. The world it leaves is the one the command left.
\<close>

theorem runCommand_returns_iff_status_zero:
  "(fst (runCommand e command s) = Inr ()) = (fst (execSync e command (fst s)) = ExitStatus 0)
   \<and> (fst (execSync e command (fst s)) = ExitStatus 0 \<longrightarrow>
        snd (snd (runCommand e command s)) = snd s @ [Info (''> '' @ command), Exec command])
   \<and> (fst (execSync e command (fst s)) \<noteq> ExitStatus 0 \<longrightarrow>
        fst (runCommand e command s) = Inl (Exit 1)
        \<and> snd (snd (runCommand e command s)) =
            snd s @ [Info (''> '' @ command), Exec command, ErrorMsg (commandFailed command)])
   \<and> str_includes (commandFailed command) command
   \<and> filter is_exec (snd (snd (runCommand e command s))) =
        filter is_exec (snd s) @ [Exec command]
   \<and> fst (snd (runCommand e command s)) = snd (execSync e command (fst s))"
proof (cases "fst (execSync e command (fst s)) = ExitStatus 0")
  case True
  then show ?thesis using commandFailed_names [of command]
    by (simp add: runCommand_ok)
next
  case False
  then show ?thesis using commandFailed_names [of command]
    by (simp add: runCommand_failed)
qed

text \<open>
  The theorem at a command that exits with status 0, one that exits with status 1, and one
  that cannot be spawned.
\<close>

theorem runCommand_returns_iff_status_zero_witness:
  "runCommand ok_env deployCommand (example_world, []) =
     (Inr (), (example_world, [Info (''> '' @ deployCommand), Exec deployCommand]))
   \<and> runCommand failing_env deployCommand (example_world, []) =
     (Inl (Exit 1), (example_world, [Info (''> '' @ deployCommand), Exec deployCommand,
        ErrorMsg (commandFailed deployCommand)]))
   \<and> runCommand (ok_env\<lparr>execSync := (\<lambda>command w. (SpawnFailure, w))\<rparr>) deployCommand
        (example_world, []) =
     (Inl (Exit 1), (example_world, [Info (''> '' @ deployCommand), Exec deployCommand,
        ErrorMsg (commandFailed deployCommand)]))"
proof -
  let ?s = "(example_world, []) :: state"
  let ?spawn = "ok_env\<lparr>execSync := (\<lambda>command w. (SpawnFailure, w))\<rparr>"
  have a: "fst (execSync ok_env deployCommand (fst ?s)) = ExitStatus 0"
    by (simp add: ok_env_def)
  have b: "fst (execSync failing_env deployCommand (fst ?s)) \<noteq> ExitStatus 0"
    by (simp add: failing_env_def ok_env_def)
  have c: "fst (execSync ?spawn deployCommand (fst ?s)) \<noteq> ExitStatus 0"
    by (simp add: ok_env_def)
  have wa: "snd (execSync ok_env deployCommand (fst ?s)) = example_world"
    by (simp add: ok_env_def)
  have wb: "snd (execSync failing_env deployCommand (fst ?s)) = example_world"
    by (simp add: failing_env_def ok_env_def)
  have wc: "snd (execSync ?spawn deployCommand (fst ?s)) = example_world"
    by (simp add: ok_env_def)
  from runCommand_returns_iff_status_zero [of ok_env deployCommand ?s] a wa
  have 1: "runCommand ok_env deployCommand ?s =
     (Inr (), (example_world, [Info (''> '' @ deployCommand), Exec deployCommand]))"
    by (simp add: prod_eq_iff)
  from runCommand_returns_iff_status_zero [of failing_env deployCommand ?s] b wb
  have 2: "runCommand failing_env deployCommand ?s =
     (Inl (Exit 1), (example_world, [Info (''> '' @ deployCommand), Exec deployCommand,
        ErrorMsg (commandFailed deployCommand)]))"
    by (simp add: prod_eq_iff)
  from runCommand_returns_iff_status_zero [of ?spawn deployCommand ?s] c wc
  have 3: "runCommand ?spawn deployCommand ?s =
     (Inl (Exit 1), (example_world, [Info (''> '' @ deployCommand), Exec deployCommand,
        ErrorMsg (commandFailed deployCommand)]))"
    by (simp add: prod_eq_iff)
  from 1 2 3 show ?thesis by (intro conjI)
qed

section \<open>Failures and how they are reported\<close>













section \<open>The loop of the source and the single pass\<close>

text \<open>
  C10 (as amended). The loop of the source, one round per blacklist substring, yields for
  every script content and blacklist the same final content as the single pass that drops
  every line containing any blacklist substring. When no blacklist entry is the empty
  string, it yields the same count as well: the number of original lines minus the number
  of retained lines, which never exceeds the number of lines, so a line that contains
  several blacklist substrings is counted once.
\<close>

theorem sanitize_refines_single_pass:
  "fst (sanitize blacklist content) = fst (sanitize_single blacklist content)
   \<and> ((\<forall>b \<in> set blacklist. b \<noteq> []) \<longrightarrow>
        sanitize blacklist content = sanitize_single blacklist content
        \<and> snd (sanitize blacklist content) =
            length (split_nl content) -
            length (filter (\<lambda>line. \<not> unsafe blacklist line) (split_nl content))
        \<and> snd (sanitize blacklist content) \<le> length (split_nl content))"
proof (intro conjI impI)
  show "fst (sanitize blacklist content) = fst (sanitize_single blacklist content)"
    by (simp add: sanitize_content sanitize_single_eq)
next
  assume ne: "\<forall>b \<in> set blacklist. b \<noteq> []"
  note cnt = sanitize_count [OF ne, of content]
  show "sanitize blacklist content = sanitize_single blacklist content"
    using cnt by (simp add: prod_eq_iff sanitize_content sanitize_single_eq)
  show "snd (sanitize blacklist content) =
      length (split_nl content) -
      length (filter (\<lambda>line. \<not> unsafe blacklist line) (split_nl content))"
    using cnt length_filter_compl [of "unsafe blacklist" "split_nl content"] by simp
  show "snd (sanitize blacklist content) \<le> length (split_nl content)"
    using cnt by simp
qed

text \<open>The theorem at a script whose first line contains both blacklist substrings.\<close>

theorem sanitize_refines_single_pass_witness:
  "sanitize [''DROP'', ''INDEX''] ''DROP INDEX a\<newline>CREATE b'' = (''CREATE b'', 1)
   \<and> sanitize_single [''DROP'', ''INDEX''] ''DROP INDEX a\<newline>CREATE b'' = (''CREATE b'', 1)"
proof -
  let ?B = "[''DROP'', ''INDEX'']"
  let ?c = "''DROP INDEX a\<newline>CREATE b''"
  have ne: "\<forall>b \<in> set ?B. b \<noteq> []" by simp
  have single: "sanitize_single ?B ?c = (''CREATE b'', 1)" by code_simp
  from sanitize_refines_single_pass [of ?B ?c] ne
  have "sanitize ?B ?c = sanitize_single ?B ?c" by (simp only: simp_thms)
  with single show ?thesis by (simp only: simp_thms)
qed

text \<open>
  The same count for every blacklist fails when entries are the empty string: on the
  two-line script \<open>a\<close>, \<open>b\<close> with two empty entries, the loop counts 3 and the single pass 2.
\<close>

theorem sanitize_sequential_counterexample:
  "sanitize ['''', ''''] ''a\<newline>b'' = ('''', 3)
   \<and> sanitize_single ['''', ''''] ''a\<newline>b'' = ('''', 2)"
  by code_simp

end
